theory Spec2Isabelle
  imports Main
begin

section \<open>Types of the Go runtime that the adapter inspects\<close>

text \<open>
  The kinds of package \<^verbatim>\<open>reflect\<close>, in the order of its constant declaration (\<^verbatim>\<open>reflect.Int\<close> is written
  \<open>IntK\<close>: \<open>Int\<close> is the intersection of sets in HOL).
\<close>

datatype kind =
    Invalid
  | Bool
  | IntK | Int8 | Int16 | Int32 | Int64
  | Uint | Uint8 | Uint16 | Uint32 | Uint64 | Uintptr
  | Float32 | Float64
  | Complex64 | Complex128
  | Array | Chan | Func | Interface | Map | Ptr | Slice | String | Struct
  | UnsafePointer

text \<open>
  A \<^verbatim>\<open>reflect.Type\<close>, as far as the adapter looks at it: its identity (two types are
  \<^verbatim>\<open>==\<close> iff their descriptors are equal), its \<^verbatim>\<open>Kind()\<close> and, for a pointer type, its
  \<^verbatim>\<open>Elem()\<close>. A pointer type is always written \<open>PtrTo\<close>; every other type is
  \<open>Named\<close> with its name and its kind.
\<close>

datatype rtype = Named string kind | PtrTo rtype

fun Kind :: "rtype \<Rightarrow> kind" where
  "Kind (Named n k) = k"
| "Kind (PtrTo T) = Ptr"

text \<open>
  \<^verbatim>\<open>T.Kind() == reflect.Ptr && T.Elem().Kind() == reflect.Struct\<close>: the element type is
  only read of a pointer type.
\<close>

fun isPtrToStruct :: "rtype \<Rightarrow> bool" where
  "isPtrToStruct (PtrTo E) = (Kind E = Struct)"
| "isPtrToStruct (Named n k) = False"

text \<open>
  \<^verbatim>\<open>argTypeRequest = reflect.TypeOf((*http.Request)(nil))\<close> and
  \<^verbatim>\<open>argTypeResponseWriter = reflect.TypeOf((*http.ResponseWriter)(nil)).Elem()\<close>:
  \<^verbatim>\<open>http.Request\<close> is a struct type of net/http, \<^verbatim>\<open>http.ResponseWriter\<close> an interface type.
\<close>

definition argTypeRequest :: rtype where
  "argTypeRequest = PtrTo (Named ''http.Request'' Struct)"

definition argTypeResponseWriter :: rtype where
  "argTypeResponseWriter = Named ''http.ResponseWriter'' Interface"

section \<open>Requests, values and the collaborators\<close>

text \<open>
  What ServeHTTP reads of a \<^verbatim>\<open>*http.Request\<close>: the Content-Type header, the parsed
  query string (\<^verbatim>\<open>req.URL.Query()\<close>, a name with its values; the list gives the order in
  which the map is ranged over), the result of reading \<^verbatim>\<open>req.Body\<close> to its end (the error
  of \<^verbatim>\<open>Read\<close>, or the bytes), the result of \<^verbatim>\<open>req.ParseForm()\<close> (its error, or
  \<^verbatim>\<open>req.PostForm\<close>), and the path.
\<close>

record request =
  Header_ContentType :: string
  URL_Path :: string
  URL_Query :: "(string \<times> string list) list"
  Body :: "string + string"
  ParseForm :: "string + (string \<times> string list) list"

text \<open>
  The value in an argument slot or a result: the zero value \<^verbatim>\<open>Fn.Args()\<close> allocates for
  a parameter type, the request, the response writer, a value of dynamic type
  \<^verbatim>\<open>string\<close>, or any other value.
\<close>

datatype 'a gvalue =
    ZeroV rtype
  | RequestV request
  | WriterV
  | StringV string
  | DataV 'a

text \<open>
  The second argument of \<^verbatim>\<open>Bind(...).Set(name, value)\<close>: path values are a
  \<^verbatim>\<open>string\<close>, query and form values a \<^verbatim>\<open>[]string\<close>.
\<close>

datatype setval = One string | Many "string list"

text \<open>
  A \<^verbatim>\<open>*set.Mapper\<close> (package set is a collaborator): \<^verbatim>\<open>Map(T).Keys\<close>, and what
  \<^verbatim>\<open>Bind(ptr).Set(name, value)\<close> does to the value \<^verbatim>\<open>ptr\<close> points to. The error of
  \<^verbatim>\<open>Set\<close> is dropped by every caller.
\<close>

record 'a Mapper =
  Map_Keys :: "rtype \<Rightarrow> string list"
  Bind_Set :: "string \<Rightarrow> setval \<Rightarrow> 'a gvalue \<Rightarrow> 'a gvalue"

text \<open>
  \<^verbatim>\<open>type Poly struct\<close>: a nil mapper or a nil \<^verbatim>\<open>PathParamer\<close> is \<open>None\<close>.
\<close>

record 'a Poly =
  FormMapper :: "'a Mapper option"
  PathMapper :: "'a Mapper option"
  QueryMapper :: "'a Mapper option"
  PathParamer :: "(request \<Rightarrow> string \<Rightarrow> string) option"

text \<open>
  \<^verbatim>\<open>call.Result\<close>: \<open>Error\<close> is the text of the error (\<^verbatim>\<open>result.Error.Error()\<close>),
  \<open>None\<close> when the error is nil.
\<close>

record 'a Result =
  Error :: "string option"
  Values :: "'a gvalue list"

text \<open>
  \<^verbatim>\<open>call.Func\<close> as \<^verbatim>\<open>call.StatFunc\<close> fills it: the parameter types, the result types, and
  the function itself.
\<close>

record 'a Func =
  InTypes :: "rtype list"
  OutTypes :: "rtype list"
  Call :: "'a gvalue list \<Rightarrow> 'a Result"

definition NumIn :: "'a Func \<Rightarrow> nat" where
  "NumIn fn = length (InTypes fn)"

definition NumOut :: "'a Func \<Rightarrow> nat" where
  "NumOut fn = length (OutTypes fn)"

text \<open>\<^verbatim>\<open>fn.Args()\<close>: a fresh zero value per parameter.\<close>

definition Args :: "'a Func \<Rightarrow> 'a gvalue list" where
  "Args fn = map ZeroV (InTypes fn)"

text \<open>
  \<^verbatim>\<open>fn.PruneIn(types...)\<close> of package call, as newHandler uses it: the arguments
  (index \<open>N\<close>, type \<open>T\<close>) whose type is one of the given types, in parameter order.
\<close>

definition PruneIn :: "'a Func \<Rightarrow> rtype list \<Rightarrow> (nat \<times> rtype) list" where
  "PruneIn fn types = filter (\<lambda>(n, T). T \<in> set types) (enumerate 0 (InTypes fn))"

section \<open>The handler and its construction (handler.go)\<close>

record pathParams =
  N :: nat
  Keys :: "string list"

record 'a handler =
  Poly :: "'a Poly"
  Fn :: "'a Func"
  FnHasReturn :: bool
  PassThru :: "(nat \<times> rtype) list"
  Form :: "nat list"
  JSON :: "nat list"
  Path :: "pathParams list"
  Query :: "nat list"

text \<open>The three mapper blocks of the loop body of newHandler.\<close>

definition addForm :: "'a Poly \<Rightarrow> nat \<Rightarrow> rtype \<Rightarrow> 'a handler \<Rightarrow> 'a handler" where
  "addForm poly k T rv =
     (case FormMapper poly of
        None \<Rightarrow> rv
      | Some m \<Rightarrow> if length (Map_Keys m T) > 0 then rv\<lparr>Form := Form rv @ [k]\<rparr> else rv)"

definition addPath :: "'a Poly \<Rightarrow> nat \<Rightarrow> rtype \<Rightarrow> 'a handler \<Rightarrow> 'a handler" where
  "addPath poly k T rv =
     (case PathMapper poly of
        None \<Rightarrow> rv
      | Some m \<Rightarrow>
          if length (Map_Keys m T) > 0
          then rv\<lparr>Path := Path rv @ [\<lparr>N = k, Keys = Map_Keys m T\<rparr>]\<rparr>
          else rv)"

definition addQuery :: "'a Poly \<Rightarrow> nat \<Rightarrow> rtype \<Rightarrow> 'a handler \<Rightarrow> 'a handler" where
  "addQuery poly k T rv =
     (case QueryMapper poly of
        None \<Rightarrow> rv
      | Some m \<Rightarrow> if length (Map_Keys m T) > 0 then rv\<lparr>Query := Query rv @ [k]\<rparr> else rv)"

text \<open>The last block: a struct or a pointer to a struct is a JSON target.\<close>

definition addJSON :: "nat \<Rightarrow> rtype \<Rightarrow> 'a handler \<Rightarrow> 'a handler" where
  "addJSON k T rv =
     (if Kind T = Struct then rv\<lparr>JSON := JSON rv @ [k]\<rparr>
      else if isPtrToStruct T then rv\<lparr>JSON := JSON rv @ [k]\<rparr>
      else rv)"

text \<open>
  One iteration of \<^verbatim>\<open>for k, T := range fn.InTypes\<close>: the two \<^verbatim>\<open>continue\<close> cases of the
  switch, then the four blocks.
\<close>

definition classify :: "'a Poly \<Rightarrow> nat \<times> rtype \<Rightarrow> 'a handler \<Rightarrow> 'a handler" where
  "classify poly kT rv =
     (case kT of (k, T) \<Rightarrow>
        if T = argTypeRequest then rv
        else if Kind T = Interface then rv
        else addJSON k T (addQuery poly k T (addPath poly k T (addForm poly k T rv))))"

text \<open>The switch on the kind of the first result type.\<close>

fun payloadKind :: "kind \<Rightarrow> bool" where
  "payloadKind Bool = True"
| "payloadKind Float32 = True"
| "payloadKind Float64 = True"
| "payloadKind IntK = True"
| "payloadKind Int8 = True"
| "payloadKind Int16 = True"
| "payloadKind Int32 = True"
| "payloadKind Int64 = True"
| "payloadKind Uint = True"
| "payloadKind Uint8 = True"
| "payloadKind Uint16 = True"
| "payloadKind Uint32 = True"
| "payloadKind Uint64 = True"
| "payloadKind String = True"
| "payloadKind Ptr = True"
| "payloadKind Array = True"
| "payloadKind Slice = True"
| "payloadKind Map = True"
| "payloadKind Struct = True"
| "payloadKind _ = False"

definition newHandler :: "'a Poly \<Rightarrow> 'a Func \<Rightarrow> 'a handler" where
  "newHandler poly fn =
     (let rv = \<lparr>Poly = poly, Fn = fn, FnHasReturn = False,
                PassThru = PruneIn fn [argTypeRequest, argTypeResponseWriter],
                Form = [], JSON = [], Path = [], Query = []\<rparr>;
          rv = fold (classify poly) (enumerate 0 (InTypes fn)) rv
      in if NumOut fn \<ge> 1
         then (if payloadKind (Kind (OutTypes fn ! 0)) then rv\<lparr>FnHasReturn := True\<rparr> else rv)
         else rv)"

section \<open>Serving a request (handler.go)\<close>

text \<open>
  The calls ServeHTTP itself makes on the \<^verbatim>\<open>http.ResponseWriter\<close>, in order:
  \<^verbatim>\<open>http.Error(w, msg, code)\<close>, \<^verbatim>\<open>w.Header().Set(key, value)\<close>,
  \<^verbatim>\<open>fmt.Fprint(w, s)\<close>, which writes the string \<open>s\<close> as it is, and
  \<^verbatim>\<open>fmt.Fprintf(w, format)\<close> with no operands, which interprets \<open>format\<close>: every
  \<^verbatim>\<open>%\<close> in it starts a verb.
\<close>

datatype w_op =
    http_Error string nat
  | Header_Set string string
  | fmt_Fprint string
  | fmt_Fprintf string

definition StatusBadRequest :: nat where
  "StatusBadRequest = 400"

definition StatusInternalServerError :: nat where
  "StatusInternalServerError = 500"

text \<open>
  Package encoding/json: \<^verbatim>\<open>json.Unmarshal(data, ptr)\<close> gives its error, or the value
  \<^verbatim>\<open>ptr\<close> points to afterwards; \<^verbatim>\<open>json.Marshal(v)\<close> gives its error or the bytes.
\<close>

record 'a encoding_json =
  Unmarshal :: "string \<Rightarrow> 'a gvalue \<Rightarrow> string + 'a gvalue"
  Marshal :: "'a gvalue \<Rightarrow> string + string"

text \<open>
  \<^verbatim>\<open>args.Values[n]\<close> and \<^verbatim>\<open>args.Pointers[n]\<close> are one slot of the argument list. An
  index out of range panics, as does a call on a nil mapper: \<open>None\<close>.
\<close>

definition setSlot :: "nat \<Rightarrow> ('v \<Rightarrow> 'v) \<Rightarrow> 'v list \<Rightarrow> 'v list option" where
  "setSlot n f args = (if n < length args then Some (args[n := f (args ! n)]) else None)"

text \<open>A \<^verbatim>\<open>for ... range\<close> loop whose body may panic.\<close>

fun forEach :: "('x \<Rightarrow> 's \<Rightarrow> 's option) \<Rightarrow> 'x list \<Rightarrow> 's \<Rightarrow> 's option" where
  "forEach f [] s = Some s"
| "forEach f (x # xs) s = (case f x s of None \<Rightarrow> None | Some s' \<Rightarrow> forEach f xs s')"

text \<open>The body of the loop over \<^verbatim>\<open>h.PassThru\<close>: a switch on \<^verbatim>\<open>passThru.T\<close>.\<close>

definition setPassThru :: "request \<Rightarrow> nat \<times> rtype \<Rightarrow> 'a gvalue list \<Rightarrow> 'a gvalue list option" where
  "setPassThru req passThru args =
     (case passThru of (n, T) \<Rightarrow>
        if T = argTypeRequest then setSlot n (\<lambda>_. RequestV req) args
        else if T = argTypeResponseWriter then setSlot n (\<lambda>_. WriterV) args
        else Some args)"

text \<open>Unmarshal path parameters: only with a \<^verbatim>\<open>PathParamer\<close>.\<close>

definition bindPath :: "'a handler \<Rightarrow> request \<Rightarrow> 'a gvalue list \<Rightarrow> 'a gvalue list option" where
  "bindPath h req args =
     (case PathParamer (Poly h) of
        None \<Rightarrow> Some args
      | Some pathParam \<Rightarrow>
          forEach (\<lambda>param args.
              case PathMapper (Poly h) of
                None \<Rightarrow> None
              | Some m \<Rightarrow>
                  setSlot (N param)
                    (fold (\<lambda>key. Bind_Set m key (One (pathParam req key))) (Keys param)) args)
            (Path h) args)"

text \<open>Unmarshal query parameters.\<close>

definition bindQuery :: "'a handler \<Rightarrow> request \<Rightarrow> 'a gvalue list \<Rightarrow> 'a gvalue list option" where
  "bindQuery h req args =
     (if Query h \<noteq> []
      then forEach (\<lambda>n args.
              case QueryMapper (Poly h) of
                None \<Rightarrow> None
              | Some m \<Rightarrow>
                  setSlot n (fold (\<lambda>(param, vals). Bind_Set m param (Many vals)) (URL_Query req)) args)
            (Query h) args
      else Some args)"

text \<open>
  The steps before the body is looked at: a fresh argument list, then pass-through, path
  and query.
\<close>

definition bindURL :: "'a handler \<Rightarrow> request \<Rightarrow> 'a gvalue list option" where
  "bindURL h req =
     (case forEach (setPassThru req) (PassThru h) (Args (Fn h)) of
        None \<Rightarrow> None
      | Some args \<Rightarrow>
          (case bindPath h req args of
             None \<Rightarrow> None
           | Some args \<Rightarrow> bindQuery h req args))"

text \<open>
  The body step ends in an early return after \<^verbatim>\<open>http.Error\<close> (\<open>Abort\<close>, with the calls
  made on the writer) or goes on to the call with the arguments (\<open>Ready\<close>).
\<close>

datatype 'a bound = Abort "w_op list" | Ready "'a gvalue list"

text \<open>\<^verbatim>\<open>for _, n := range h.JSON\<close>: each target is decoded from the same buffer.\<close>

fun decodeJSON :: "'a encoding_json \<Rightarrow> string \<Rightarrow> nat list \<Rightarrow> 'a gvalue list \<Rightarrow> 'a bound option" where
  "decodeJSON js buf [] args = Some (Ready args)"
| "decodeJSON js buf (n # ns) args =
     (if n < length args
      then (case Unmarshal js buf (args ! n) of
              Inl err \<Rightarrow> Some (Abort [http_Error ''decoding json'' StatusBadRequest])
            | Inr v \<Rightarrow> decodeJSON js buf ns (args[n := v]))
      else None)"

definition bindForm :: "'a handler \<Rightarrow> (string \<times> string list) list \<Rightarrow> 'a gvalue list \<Rightarrow> 'a gvalue list option" where
  "bindForm h postForm args =
     forEach (\<lambda>n args.
         case FormMapper (Poly h) of
           None \<Rightarrow> None
         | Some m \<Rightarrow>
             setSlot n (fold (\<lambda>(name, value). Bind_Set m name (Many value)) postForm) args)
       (Form h) args"

definition bindBody :: "'a encoding_json \<Rightarrow> 'a handler \<Rightarrow> request \<Rightarrow> 'a gvalue list \<Rightarrow> 'a bound option" where
  "bindBody js h req args =
     (let contentType = Header_ContentType req;
          tryForm = (Form h \<noteq> [] \<and> contentType = ''application/x-www-form-urlencoded'');
          tryJSON = (JSON h \<noteq> [] \<and> contentType = ''application/json'')
      in if tryJSON
         then (case Body req of
                 Inl err \<Rightarrow> Some (Abort [http_Error ''reading body'' StatusBadRequest])
               | Inr buf \<Rightarrow> decodeJSON js buf (JSON h) args)
         else if tryForm
         then (case ParseForm req of
                 Inl err \<Rightarrow> Some (Abort [http_Error ''parse form'' StatusBadRequest])
               | Inr postForm \<Rightarrow> map_option Ready (bindForm h postForm args))
         else Some (Ready args))"

text \<open>
  After the call: the error first, then the type switch on \<^verbatim>\<open>result.Values[0]\<close>, which
  panics on an empty \<^verbatim>\<open>Values\<close>.
\<close>

definition respond :: "'a encoding_json \<Rightarrow> 'a handler \<Rightarrow> 'a Result \<Rightarrow> w_op list option" where
  "respond js h result =
     (case Error result of
        Some e \<Rightarrow> Some [http_Error e StatusInternalServerError]
      | None \<Rightarrow>
          if FnHasReturn h
          then (case Values result of
                  [] \<Rightarrow> None
                | StringV value # _ \<Rightarrow>
                    Some [Header_Set ''Content-Type'' ''text/plain; charset=utf-8'', fmt_Fprint value]
                | value # _ \<Rightarrow>
                    (case Marshal js value of
                       Inl err \<Rightarrow> Some [http_Error err StatusInternalServerError]
                     | Inr blob \<Rightarrow>
                         Some [Header_Set ''Content-Type'' ''application/json'', fmt_Fprintf blob]))
          else Some [])"

text \<open>
  What serving a request did: the calls made on the writer, and the arguments the
  function was called with (\<open>None\<close> when it was not called).
\<close>

record 'a outcome =
  writes :: "w_op list"
  invoked :: "'a gvalue list option"

definition invoke :: "'a encoding_json \<Rightarrow> 'a handler \<Rightarrow> 'a gvalue list \<Rightarrow> 'a outcome option" where
  "invoke js h args =
     (case respond js h (Call (Fn h) args) of
        None \<Rightarrow> None
      | Some ws \<Rightarrow> Some \<lparr>writes = ws, invoked = Some args\<rparr>)"

text \<open>All of the binding: the steps before the body, then the body.\<close>

definition bindArgs :: "'a encoding_json \<Rightarrow> 'a handler \<Rightarrow> request \<Rightarrow> 'a bound option" where
  "bindArgs js h req =
     (case bindURL h req of
        None \<Rightarrow> None
      | Some args \<Rightarrow> bindBody js h req args)"

definition ServeHTTP :: "'a encoding_json \<Rightarrow> 'a handler \<Rightarrow> request \<Rightarrow> 'a outcome option" where
  "ServeHTTP js h req =
     (case bindArgs js h req of
        None \<Rightarrow> None
      | Some (Abort ws) \<Rightarrow> Some \<lparr>writes = ws, invoked = None\<rparr>
      | Some (Ready args) \<Rightarrow> invoke js h args)"

section \<open>Registration (poly.go)\<close>

text \<open>
  The value passed to \<^verbatim>\<open>Poly.Handler\<close>, by its dynamic type: an \<^verbatim>\<open>http.HandlerFunc\<close>;
  another value that implements \<^verbatim>\<open>http.Handler\<close>; or any other function value, with the
  name of its type when that is a defined type (\<open>None\<close> for a function literal or
  declaration, whose type is the unnamed \<^verbatim>\<open>func(...) ...\<close>) and what \<^verbatim>\<open>call.StatFunc\<close>
  finds. A value that is not a function is left out.
\<close>

datatype 'a fnvalue =
    HandlerFuncV "'a gvalue list \<Rightarrow> 'a Result"
  | HandlerV "'a gvalue list \<Rightarrow> 'a Result"
  | FuncV "string option" "'a Func"

text \<open>
  The \<^verbatim>\<open>http.Handler\<close> returned: the value itself, whose \<^verbatim>\<open>ServeHTTP(w, req)\<close> calls the
  function with \<open>w\<close> and \<open>req\<close>, or a \<open>handler\<close> of this package.
\<close>

datatype 'a http_Handler = Std "'a gvalue list \<Rightarrow> 'a Result" | Adapter "'a handler"

datatype panic = InterfaceConversion

text \<open>
  The type assertion \<^verbatim>\<open>fn.(func(http.ResponseWriter, *http.Request))\<close> holds iff the
  dynamic type of \<open>fn\<close> is that unnamed function type: no name, these two parameters, no
  result. In its one-result form it panics otherwise.
\<close>

definition isFuncWriterRequest :: "string option \<Rightarrow> 'a Func \<Rightarrow> bool" where
  "isFuncWriterRequest name F \<longleftrightarrow>
     name = None \<and> InTypes F = [argTypeResponseWriter, argTypeRequest] \<and> OutTypes F = []"

fun Handler :: "'a Poly \<Rightarrow> 'a fnvalue \<Rightarrow> panic + 'a http_Handler" where
  "Handler p (HandlerFuncV f) = Inr (Std f)"
| "Handler p (HandlerV f) = Inr (Std f)"
| "Handler p (FuncV name F) =
     (if NumIn F = 2 \<and> InTypes F ! 0 = argTypeResponseWriter \<and> InTypes F ! 1 = argTypeRequest
      then (if isFuncWriterRequest name F then Inr (Std (Call F)) else Inl InterfaceConversion)
      else Inr (Adapter (newHandler p F)))"

fun serve :: "'a encoding_json \<Rightarrow> 'a http_Handler \<Rightarrow> request \<Rightarrow> 'a outcome option" where
  "serve js (Std f) req = Some \<lparr>writes = [], invoked = Some [WriterV, RequestV req]\<rparr>"
| "serve js (Adapter h) req = ServeHTTP js h req"

section \<open>The path parameters of KeyValueParams (key\_value\_params.go)\<close>

text \<open>
  The two inner loops of ParsePath:
  \<^verbatim>\<open>for ; begin < remaining && p[begin] == '/'; begin++ {}\<close> and
  \<^verbatim>\<open>for k = begin; k < remaining && p[k] != '/'; k++ {}\<close>. A Go string is its bytes.
\<close>

function skipSlashes :: "string \<Rightarrow> nat \<Rightarrow> nat \<Rightarrow> nat" where
  "skipSlashes p i remaining =
     (if i < remaining \<and> p ! i = CHR ''/'' then skipSlashes p (Suc i) remaining else i)"
  by pat_completeness auto
termination
  by (relation "measure (\<lambda>(p, i, remaining). remaining - i)") auto

function skipSegment :: "string \<Rightarrow> nat \<Rightarrow> nat \<Rightarrow> nat" where
  "skipSegment p k remaining =
     (if k < remaining \<and> p ! k \<noteq> CHR ''/'' then skipSegment p (Suc k) remaining else k)"
  by pat_completeness auto
termination
  by (relation "measure (\<lambda>(p, k, remaining). remaining - k)") auto

text \<open>The substring \<^verbatim>\<open>p[begin:k]\<close>.\<close>

definition slice :: "string \<Rightarrow> nat \<Rightarrow> nat \<Rightarrow> string" where
  "slice p begin k = take (k - begin) (drop begin p)"

text \<open>Where the two loops stop: what the termination of ParsePath rests on.\<close>

lemma skipSlashes_ge: "i \<le> skipSlashes p i r"
  by (induction p i r rule: skipSlashes.induct) (metis Suc_leD le_refl skipSlashes.simps)

lemma skipSegment_ge: "k \<le> skipSegment p k r"
  by (induction p k r rule: skipSegment.induct) (metis Suc_leD le_refl skipSegment.simps)

lemma skipSlashes_le: "i \<le> r \<Longrightarrow> skipSlashes p i r \<le> r"
  by (induction p i r rule: skipSlashes.induct) (metis Suc_leI skipSlashes.simps)

lemma skipSegment_le: "k \<le> r \<Longrightarrow> skipSegment p k r \<le> r"
  by (induction p k r rule: skipSegment.induct) (metis Suc_leI skipSegment.simps)

lemma skipSlashes_stop: "skipSlashes p i r < r \<Longrightarrow> p ! skipSlashes p i r \<noteq> CHR ''/''"
  by (induction p i r rule: skipSlashes.induct) (metis skipSlashes.simps)

lemma skipSegment_gt: "k < r \<Longrightarrow> p ! k \<noteq> CHR ''/'' \<Longrightarrow> k < skipSegment p k r"
  by (metis Suc_le_lessD skipSegment.simps skipSegment_ge)

declare skipSlashes.simps [simp del] skipSegment.simps [simp del]

text \<open>
  The outer loop \<^verbatim>\<open>for p != ""\<close>, with the map \<open>rv\<close>, the rest of the path \<open>p\<close> and
  \<open>remaining\<close> as its state; each \<^verbatim>\<open>break\<close> returns \<open>rv\<close>.
\<close>

function ParsePath_loop :: "(string \<rightharpoonup> string) \<Rightarrow> string \<Rightarrow> nat \<Rightarrow> (string \<rightharpoonup> string)" where
  "ParsePath_loop rv p remaining =
     (if p = [] then rv
      else
        let begin = skipSlashes p 0 remaining in
        if begin = remaining then rv
        else
          let k = skipSegment p begin remaining;
              keystr = slice p begin k in
          if k = remaining then rv(keystr \<mapsto> [])
          else
            let begin' = skipSlashes p k remaining;
                k' = skipSegment p begin' remaining;
                rv' = rv(keystr \<mapsto> slice p begin' k') in
            if k' = remaining then rv'
            else ParsePath_loop rv' (drop k' p) (remaining - k'))"
  by pat_completeness auto
termination
proof (relation "measure (\<lambda>(rv, p, remaining). remaining)", goal_cases)
  case 1
  show ?case by simp
next
  case (2 rv p remaining b k keystr b' k' rv')
  have b: "b < remaining"
    using 2 skipSlashes_le [of 0 remaining p] by simp
  then have "p ! b \<noteq> CHR ''/''"
    using 2 skipSlashes_stop [of p 0 remaining] by simp
  with b have "b < k"
    using 2 skipSegment_gt [of b remaining p] by simp
  moreover have "k \<le> b'"
    using 2 skipSlashes_ge [of k p remaining] by simp
  moreover have "b' \<le> k'"
    using 2 skipSegment_ge [of b' p remaining] by simp
  ultimately have "0 < k'" by simp
  moreover have "0 < remaining" using b by simp
  ultimately show ?case by simp
qed

declare ParsePath_loop.simps [simp del]

definition ParsePath :: "string \<Rightarrow> (string \<rightharpoonup> string)" where
  "ParsePath p = ParsePath_loop Map.empty p (length p)"



subsection \<open>The path contract in the words of the specification\<close>

text \<open>
  The path is cut at every slash; the pieces that are not empty are the segments. They are
  read in pairs, key then value, each pair stored in turn, so that a later pair overwrites
  an earlier one with the same key; a last key with no value is stored with the empty
  string.
\<close>

fun split_slash :: "string \<Rightarrow> string list" where
  "split_slash [] = [[]]"
| "split_slash (c # cs) =
     (if c = CHR ''/'' then [] # split_slash cs
      else (case split_slash cs of w # ws \<Rightarrow> (c # w) # ws | [] \<Rightarrow> [[c]]))"

definition segments :: "string \<Rightarrow> string list" where
  "segments p = filter (\<lambda>w. w \<noteq> []) (split_slash p)"

fun pairs_to_map :: "(string \<rightharpoonup> string) \<Rightarrow> string list \<Rightarrow> (string \<rightharpoonup> string)" where
  "pairs_to_map m [] = m"
| "pairs_to_map m [k] = m(k \<mapsto> [])"
| "pairs_to_map m (k # v # rest) = pairs_to_map (m(k \<mapsto> v)) rest"

text \<open>The segments of a list of key/value pairs.\<close>

definition flat :: "(string \<times> string) list \<Rightarrow> string list" where
  "flat kvs = concat (map (\<lambda>(k, v). [k, v]) kvs)"

abbreviation isSlash :: "char \<Rightarrow> bool" where
  "isSlash \<equiv> (\<lambda>c. c = CHR ''/'')"

abbreviation notSlash :: "char \<Rightarrow> bool" where
  "notSlash \<equiv> (\<lambda>c. c \<noteq> CHR ''/'')"

section \<open>ParsePath computes the path contract\<close>

text \<open>The index loops, read as \<open>takeWhile\<close> and \<open>dropWhile\<close> on the rest of the path.\<close>

lemma skipSlashes_eq:
  "i \<le> length p \<Longrightarrow> skipSlashes p i (length p) = i + length (takeWhile isSlash (drop i p))"
proof (induction p i "length p" rule: skipSlashes.induct)
  case (1 p i)
  show ?case
  proof (cases "i < length p \<and> p ! i = CHR ''/''")
    case True
    then have "drop i p = CHR ''/'' # drop (Suc i) p"
      by (metis Cons_nth_drop_Suc)
    with True 1 show ?thesis
      by (subst skipSlashes.simps) simp
  next
    case False
    show ?thesis
    proof (cases "i < length p")
      case True
      with False have "drop i p = p ! i # drop (Suc i) p" "p ! i \<noteq> CHR ''/''"
        by (simp_all add: Cons_nth_drop_Suc)
      with False show ?thesis
        by (subst skipSlashes.simps) simp
    next
      case False
      then show ?thesis
        by (subst skipSlashes.simps) simp
    qed
  qed
qed

lemma skipSegment_eq:
  "k \<le> length p \<Longrightarrow> skipSegment p k (length p) = k + length (takeWhile notSlash (drop k p))"
proof (induction p k "length p" rule: skipSegment.induct)
  case (1 p k)
  show ?case
  proof (cases "k < length p \<and> p ! k \<noteq> CHR ''/''")
    case True
    then have "drop k p = p ! k # drop (Suc k) p"
      by (metis Cons_nth_drop_Suc)
    with True 1 show ?thesis
      by (subst skipSegment.simps) simp
  next
    case False
    show ?thesis
    proof (cases "k < length p")
      case True
      with False have "drop k p = CHR ''/'' # drop (Suc k) p" "p ! k = CHR ''/''"
        by (metis Cons_nth_drop_Suc)+
      then show ?thesis
        by (subst skipSegment.simps) simp
    next
      case False
      then show ?thesis
        by (subst skipSegment.simps) simp
    qed
  qed
qed

lemma drop_skipSlashes:
  "i \<le> length p \<Longrightarrow> drop (skipSlashes p i (length p)) p = dropWhile isSlash (drop i p)"
  by (simp add: skipSlashes_eq dropWhile_eq_drop add.commute)

lemma drop_skipSegment:
  "k \<le> length p \<Longrightarrow> drop (skipSegment p k (length p)) p = dropWhile notSlash (drop k p)"
  by (simp add: skipSegment_eq dropWhile_eq_drop add.commute)

lemma slice_skipSegment:
  "b \<le> length p \<Longrightarrow> slice p b (skipSegment p b (length p)) = takeWhile notSlash (drop b p)"
proof -
  assume "b \<le> length p"
  then have "slice p b (skipSegment p b (length p))
      = take (length (takeWhile notSlash (drop b p))) (drop b p)"
    by (simp add: skipSegment_eq slice_def)
  then show ?thesis
    by (simp only: takeWhile_eq_take [symmetric])
qed

lemma at_end_iff: "n \<le> length p \<Longrightarrow> n = length p \<longleftrightarrow> drop n p = []"
  by auto

lemma ParsePath_loop_unfold:
  "ParsePath_loop rv p (length p) =
     (let q = dropWhile isSlash p in
      if q = [] then rv
      else
        let keystr = takeWhile notSlash q; r = dropWhile notSlash q in
        if r = [] then rv(keystr \<mapsto> [])
        else
          let q' = dropWhile isSlash r;
              rv' = rv(keystr \<mapsto> takeWhile notSlash q'); r' = dropWhile notSlash q' in
          if r' = [] then rv' else ParsePath_loop rv' r' (length r'))"
proof (cases "p = []")
  case True
  then show ?thesis
    by (subst ParsePath_loop.simps) simp
next
  case False
  define b where "b = skipSlashes p 0 (length p)"
  define k where "k = skipSegment p b (length p)"
  define b' where "b' = skipSlashes p k (length p)"
  define k' where "k' = skipSegment p b' (length p)"
  have b: "b \<le> length p" unfolding b_def by (simp add: skipSlashes_le)
  have k: "k \<le> length p" unfolding k_def using b by (simp add: skipSegment_le)
  have b': "b' \<le> length p" unfolding b'_def using k by (simp add: skipSlashes_le)
  have k': "k' \<le> length p" unfolding k'_def using b' by (simp add: skipSegment_le)
  define q where "q = dropWhile isSlash p"
  define r where "r = dropWhile notSlash q"
  define q' where "q' = dropWhile isSlash r"
  define r' where "r' = dropWhile notSlash q'"
  have dq: "drop b p = q" unfolding b_def q_def using drop_skipSlashes [of 0 p] by simp
  have dr: "drop k p = r" unfolding k_def r_def using drop_skipSegment [OF b] dq by simp
  have dq': "drop b' p = q'" unfolding b'_def q'_def using drop_skipSlashes [OF k] dr by simp
  have dr': "drop k' p = r'" unfolding k'_def r'_def using drop_skipSegment [OF b'] dq' by simp
  have key: "slice p b k = takeWhile notSlash q"
    unfolding k_def using slice_skipSegment [OF b] dq by simp
  have val: "slice p b' k' = takeWhile notSlash q'"
    unfolding k'_def using slice_skipSegment [OF b'] dq' by simp
  have e1: "b = length p \<longleftrightarrow> q = []" using at_end_iff [OF b] dq by simp
  have e2: "k = length p \<longleftrightarrow> r = []" using at_end_iff [OF k] dr by simp
  have e3: "k' = length p \<longleftrightarrow> r' = []" using at_end_iff [OF k'] dr' by simp
  have len: "length p - k' = length r'" using dr' [symmetric] by simp
  have "ParsePath_loop rv p (length p) =
     (if b = length p then rv
      else if k = length p then rv(slice p b k \<mapsto> [])
      else if k' = length p then rv(slice p b k \<mapsto> slice p b' k')
      else ParsePath_loop (rv(slice p b k \<mapsto> slice p b' k')) (drop k' p) (length p - k'))"
    using False by (subst ParsePath_loop.simps) (simp add: Let_def b_def k_def b'_def k'_def)
  also have "\<dots> =
     (if q = [] then rv
      else if r = [] then rv(takeWhile notSlash q \<mapsto> [])
      else if r' = [] then rv(takeWhile notSlash q \<mapsto> takeWhile notSlash q')
      else ParsePath_loop (rv(takeWhile notSlash q \<mapsto> takeWhile notSlash q')) r' (length r'))"
    by (simp only: key val e1 e2 e3 dr' len)
  finally show ?thesis
    unfolding Let_def q_def r_def q'_def r'_def by (simp only: if_True if_False split: if_splits)
qed

lemma split_slash_eq:
  "split_slash p =
     takeWhile notSlash p # (case dropWhile notSlash p of [] \<Rightarrow> [] | c # r \<Rightarrow> split_slash r)"
  by (induction p) auto

lemma segments_slash [simp]: "segments (CHR ''/'' # p) = segments p"
  by (simp add: segments_def)

lemma segments_Nil [simp]: "segments [] = []"
  by (simp add: segments_def)

lemma segments_dropWhile_slash: "segments (dropWhile isSlash p) = segments p"
  by (induction p) simp_all

lemma segments_word:
  assumes "q \<noteq> []" "hd q \<noteq> CHR ''/''"
  shows "segments q = takeWhile notSlash q # segments (dropWhile notSlash q)"
proof -
  obtain c cs where q: "q = c # cs" "c \<noteq> CHR ''/''"
    using assms by (cases q) auto
  have tw: "takeWhile notSlash q \<noteq> []" using q by simp
  have "segments (dropWhile notSlash q) =
        filter (\<lambda>w. w \<noteq> []) (case dropWhile notSlash q of [] \<Rightarrow> [] | c # r \<Rightarrow> split_slash r)"
  proof (cases "dropWhile notSlash q")
    case Nil
    show ?thesis unfolding Nil by simp
  next
    case (Cons d r)
    then have "d = CHR ''/''"
      using hd_dropWhile [of notSlash q] by auto
    with Cons show ?thesis by (simp add: segments_def)
  qed
  moreover have "segments q = filter (\<lambda>w. w \<noteq> [])
      (takeWhile notSlash q # (case dropWhile notSlash q of [] \<Rightarrow> [] | c # r \<Rightarrow> split_slash r))"
    unfolding segments_def by (subst split_slash_eq) simp
  ultimately show ?thesis using tw by simp
qed

lemma segments_unfold:
  "segments p =
     (let q = dropWhile isSlash p in
      if q = [] then [] else takeWhile notSlash q # segments (dropWhile notSlash q))"
proof -
  define q where "q = dropWhile isSlash p"
  have "segments p = segments q"
    by (simp add: q_def segments_dropWhile_slash)
  moreover have "q \<noteq> [] \<Longrightarrow> hd q \<noteq> CHR ''/''"
    unfolding q_def using hd_dropWhile [of isSlash p] by simp
  ultimately show ?thesis
    using segments_word [of q] by (auto simp: Let_def q_def [symmetric])
qed


lemma ParsePath_loop_segments:
  "ParsePath_loop rv p (length p) = pairs_to_map rv (segments p)"
proof (induction "length p" arbitrary: rv p rule: less_induct)
  case less
  define q where "q = dropWhile isSlash p"
  define r where "r = dropWhile notSlash q"
  define q' where "q' = dropWhile isSlash r"
  define r' where "r' = dropWhile notSlash q'"
  define key where "key = takeWhile notSlash q"
  define val where "val = takeWhile notSlash q'"
  have U: "ParsePath_loop rv p (length p) =
     (if q = [] then rv
      else if r = [] then rv(key \<mapsto> [])
      else if r' = [] then rv(key \<mapsto> val)
      else ParsePath_loop (rv(key \<mapsto> val)) r' (length r'))"
    unfolding q_def r_def q'_def r'_def key_def val_def
    by (rule ParsePath_loop_unfold [unfolded Let_def])
  have S1: "segments p = (if q = [] then [] else key # segments r)"
    unfolding q_def r_def key_def by (rule segments_unfold [unfolded Let_def])
  have S2: "segments r = (if q' = [] then [] else val # segments r')"
    unfolding q'_def r'_def val_def by (rule segments_unfold [unfolded Let_def])
  have E: "q' = [] \<Longrightarrow> r' = []"
    by (simp add: r'_def)
  have V: "q' = [] \<Longrightarrow> val = []"
    by (simp add: val_def)
  have S3: "r' = [] \<Longrightarrow> segments r' = []"
    by simp
  have S4: "r = [] \<Longrightarrow> segments r = []"
    by simp
  have "length r' \<le> length q'"
    unfolding r'_def by (rule length_dropWhile_le)
  also have "\<dots> \<le> length r"
    unfolding q'_def by (rule length_dropWhile_le)
  also have "\<dots> \<le> length q"
    unfolding r_def by (rule length_dropWhile_le)
  also have "\<dots> \<le> length p"
    unfolding q_def by (rule length_dropWhile_le)
  finally have le: "length r' \<le> length p" .
  show ?case
  proof (cases "q = []")
    case True
    then show ?thesis by (simp add: U S1)
  next
    case q: False
    show ?thesis
    proof (cases "r = []")
      case True
      with q show ?thesis by (simp add: U S1 S4)
    next
      case r: False
      show ?thesis
      proof (cases "q' = []")
        case True
        with q r E V show ?thesis by (simp add: U S1 S2)
      next
        case q': False
        show ?thesis
        proof (cases "r' = []")
          case True
          with q r q' show ?thesis
            by (simp add: U S1 S2 S3)
        next
          case r': False
          obtain c cs where qc: "q = c # cs"
            using q by (cases q) auto
          have "dropWhile isSlash p \<noteq> []"
            using q unfolding q_def .
          then have "\<not> isSlash (hd (dropWhile isSlash p))"
            by (rule hd_dropWhile)
          then have "c \<noteq> CHR ''/''"
            using qc by (simp add: q_def [symmetric])
          then have "r = dropWhile notSlash cs"
            using qc by (simp add: r_def)
          then have "length r \<le> length cs"
            by (simp add: length_dropWhile_le)
          then have "length r < length q"
            using qc by simp
          moreover have "length r' \<le> length r" "length q \<le> length p"
            unfolding r'_def q'_def q_def
            by (meson length_dropWhile_le order_trans)+
          ultimately have "length r' < length p" by linarith
          then have IH: "ParsePath_loop (rv(key \<mapsto> val)) r' (length r')
              = pairs_to_map (rv(key \<mapsto> val)) (segments r')"
            by (rule less)
          from q r q' r' show ?thesis
            by (simp add: U S1 S2 IH)
        qed
      qed
    qed
  qed
qed

lemma split_slash_not_Nil: "split_slash p \<noteq> []"
  by (induction p) (auto split: list.splits)

lemma split_slash_append:
  "split_slash (a @ CHR ''/'' # b) = split_slash a @ split_slash b"
  by (induction a) (auto split: list.splits simp: split_slash_not_Nil)

lemma segments_append: "segments (a @ CHR ''/'' # b) = segments a @ segments b"
  by (simp add: segments_def split_slash_append)

lemma segments_replicate: "segments (replicate n (CHR ''/'')) = []"
  by (induction n) simp_all

lemma pairs_to_map_flat: "pairs_to_map m (flat kvs) = m ++ map_of (rev kvs)"
proof (induction kvs arbitrary: m)
  case Nil
  show ?case by (simp add: flat_def)
next
  case (Cons kv kvs)
  obtain k v where kv: "kv = (k, v)" by (cases kv)
  have "pairs_to_map m (flat (kv # kvs)) = pairs_to_map (m(k \<mapsto> v)) (flat kvs)"
    by (simp add: flat_def kv)
  also have "\<dots> = m(k \<mapsto> v) ++ map_of (rev kvs)"
    by (rule Cons.IH)
  also have "\<dots> = m ++ map_of (rev (kv # kvs))"
    by (simp add: kv map_add_upd_left fun_eq_iff map_add_def split: option.splits)
  finally show ?case .
qed

lemma pairs_to_map_dangling:
  "pairs_to_map m (flat kvs @ [k]) = (m ++ map_of (rev kvs))(k \<mapsto> [])"
proof (induction kvs arbitrary: m)
  case Nil
  show ?case by (simp add: flat_def)
next
  case (Cons kv kvs)
  obtain a v where kv: "kv = (a, v)" by (cases kv)
  have "pairs_to_map m (flat (kv # kvs) @ [k]) = pairs_to_map (m(a \<mapsto> v)) (flat kvs @ [k])"
    by (simp add: flat_def kv)
  also have "\<dots> = (m(a \<mapsto> v) ++ map_of (rev kvs))(k \<mapsto> [])"
    by (rule Cons.IH)
  also have "m(a \<mapsto> v) ++ map_of (rev kvs) = m ++ map_of (rev (kv # kvs))"
    by (simp add: kv map_add_upd_left fun_eq_iff map_add_def split: option.splits)
  finally show ?case .
qed

lemma ParsePath_segments: "ParsePath p = pairs_to_map Map.empty (segments p)"
  by (simp only: ParsePath_def ParsePath_loop_segments)


text \<open>
  Claim C6. For every path \<open>p\<close>, ParsePath gives the map of the path contract: the
  segments of \<open>p\<close> read as key/value pairs. So \<^verbatim>\<open>Name/Fred/Age/42\<close> gives Name: Fred and
  Age: 42; a dangling last key maps to the empty string; of two pairs with the same key
  the later one wins; a slash in front, a slash at the end and a doubled slash change
  nothing; and the empty path and a path of slashes only give the empty map.
\<close>

theorem ParsePath_contract:
  "ParsePath p = pairs_to_map Map.empty (segments p)
   \<and> ParsePath ''Name/Fred/Age/42'' = [''Name'' \<mapsto> ''Fred'', ''Age'' \<mapsto> ''42'']
   \<and> ParsePath ''Name/Fred/Age'' = [''Name'' \<mapsto> ''Fred'', ''Age'' \<mapsto> []]
   \<and> ParsePath ''Name/Fred/Age/42/Name/Barney/Age/38''
       = [''Name'' \<mapsto> ''Barney'', ''Age'' \<mapsto> ''38'']
   \<and> pairs_to_map Map.empty (flat kvs @ [k]) = (map_of (rev kvs))(k \<mapsto> [])
   \<and> pairs_to_map Map.empty (flat kvs) = map_of (rev kvs)
   \<and> ParsePath (CHR ''/'' # p) = ParsePath p
   \<and> ParsePath (p @ ''/'') = ParsePath p
   \<and> ParsePath (a @ ''//'' @ b) = ParsePath (a @ ''/'' @ b)
   \<and> ParsePath (replicate n (CHR ''/'')) = Map.empty"
proof -
  have "ParsePath ''Name/Fred/Age/42'' = [''Name'' \<mapsto> ''Fred'', ''Age'' \<mapsto> ''42'']"
    by (simp add: ParsePath_segments segments_def)
  moreover have "ParsePath ''Name/Fred/Age'' = [''Name'' \<mapsto> ''Fred'', ''Age'' \<mapsto> []]"
    by (simp add: ParsePath_segments segments_def)
  moreover have "ParsePath ''Name/Fred/Age/42/Name/Barney/Age/38''
       = [''Name'' \<mapsto> ''Barney'', ''Age'' \<mapsto> ''38'']"
    by (simp add: ParsePath_segments segments_def fun_eq_iff)
  moreover have "pairs_to_map Map.empty (flat kvs @ [k]) = (map_of (rev kvs))(k \<mapsto> [])"
    by (simp only: pairs_to_map_dangling empty_map_add)
  moreover have "pairs_to_map Map.empty (flat kvs) = map_of (rev kvs)"
    by (simp only: pairs_to_map_flat empty_map_add)
  moreover have "ParsePath (p @ ''/'') = ParsePath p"
    using segments_append [of p "[]"] by (simp add: ParsePath_segments)
  moreover have "ParsePath (a @ ''//'' @ b) = ParsePath (a @ ''/'' @ b)"
    using segments_append [of a "CHR ''/'' # b"] segments_append [of a b]
    by (simp add: ParsePath_segments)
  ultimately show ?thesis
    by (simp add: ParsePath_segments segments_replicate)
qed

end
